theory Spec2Isabelle
  imports Main "HOL-Library.AList"
begin

section \<open>The message editor of the CAN bus adapter (admin/src/components/message.tsx)\<close>

text \<open>
  The component \<open>Message\<close> keeps the configuration of one CAN message in its React state,
  validates it and tells its owner about changes (\<open>props.onChange\<close>) and about the
  validity of the message (\<open>props.onValidate\<close>). The model is a state-passing one: a
  component instance is a record of its props, its state, the calls it has made to the
  callbacks of its props (oldest first) and the allocator of object identities.

  JavaScript objects used as dictionaries (\<open>parsers\<close>, \<open>parsersValid\<close>) are association
  lists in insertion order: \<open>obj[k] = v\<close> is \<open>AList.update\<close> (an existing key keeps its
  place, a new one goes to the end), \<open>delete obj[k]\<close> is \<open>AList.delete\<close>, \<open>obj[k]\<close> is
  \<open>map_of\<close>. The \<open>parsers\<close> object also carries its identity, since the component hands
  copies of it to its owner: an object is a pair of a reference and its contents, and
  \<open>{ ...obj }\<close> takes the next free reference. The component changes an object only
  between creating it and sharing it, so the contents can travel with the reference.
  The keys of both dictionaries are the uuids of the parsers; a list that stands for an
  object has each key once, and the operations above keep it so.

  The methods are asynchronous only in that \<open>setState\<close> takes a callback; the model runs
  an update and then its callback, in the order the source awaits them.
\<close>

subsection \<open>Data\<close>

type_synonym ref = nat

record AdapterConfigMessageParser =
  id_parser :: string
  name_parser :: string
  dataType :: string
  dataLength :: int
  dataOffset :: int
  dataUnit :: string
  dataEncoding :: string
  booleanMask :: int
  booleanInvert :: bool
  customScriptRead :: string
  customScriptWrite :: string

type_synonym parsers_obj = "ref \<times> (string \<times> AdapterConfigMessageParser) list"

record AdapterConfigMessage =
  id_msg :: string
  name_msg :: string
  dlc :: int
  receive :: bool
  send :: bool
  autosend :: bool
  parsers :: parsers_obj

text \<open>\<open>interface MessageState extends ioBroker.AdapterConfigMessage\<close>; \<open>idError\<close> is
  \<open>string | null\<close>.\<close>

record MessageState = AdapterConfigMessage +
  tabIndex :: int
  idError :: "string option"
  showRemoveConfirm :: bool
  parsersValid :: "(string \<times> bool) list"

text \<open>\<open>Partial<MessageState>\<close>: every key may be absent.\<close>

record PartialState =
  id_opt :: "string option"
  name_opt :: "string option"
  dlc_opt :: "int option"
  receive_opt :: "bool option"
  send_opt :: "bool option"
  autosend_opt :: "bool option"
  parsers_opt :: "parsers_obj option"
  tabIndex_opt :: "int option"
  idError_opt :: "string option option"
  showRemoveConfirm_opt :: "bool option"
  parsersValid_opt :: "(string \<times> bool) list option"

text \<open>\<open>props.config\<close>, as the constructor reads it: it defaults every key that is
  missing.\<close>

record ConfigProp =
  id_cfg :: "string option"
  name_cfg :: "string option"
  dlc_cfg :: "int option"
  receive_cfg :: "bool option"
  send_cfg :: "bool option"
  autosend_cfg :: "bool option"
  parsers_cfg :: "parsers_obj option"

text \<open>The props the methods below read. The two callbacks are optional; \<open>has_onChange\<close>
  and \<open>has_onValidate\<close> say whether the owner gave them, and a call of one is recorded as
  an event.\<close>

record MessageProps =
  uuid :: string
  config :: ConfigProp
  has_onChange :: bool
  has_onValidate :: bool

datatype event =
  OnValidate string bool
| OnChange string AdapterConfigMessage

record Message =
  props :: MessageProps
  state :: MessageState
  calls :: "event list"
  next_ref :: ref

subsection \<open>Parts that are not among the sources\<close>

text \<open>Modelled from the spec: the constant \<open>MESSAGE_ID_REGEXP\<close> of \<open>src/consts\<close> is
  imported by the component and is not among the sources. The spec gives it as "exactly
  3 or exactly 8 hexadecimal characters (case-insensitive)", that is the anchored
  pattern \<open>^([0-9a-f]{3}|[0-9a-f]{8})$\<close> with the flag \<open>i\<close>. \<open>hex_class\<close> is the character
  class, \<open>hex_run n\<close> the bounded repetition \<open>{n}\<close> up to the end of the input,
  \<open>MESSAGE_ID_REGEXP_match\<close> the alternative.\<close>

definition hex_class :: "char \<Rightarrow> bool" where
  "hex_class c \<longleftrightarrow> c \<in> set ''0123456789abcdef'' \<or> c \<in> set ''ABCDEF''"

fun hex_run :: "nat \<Rightarrow> string \<Rightarrow> bool" where
  "hex_run 0 s = (s = [])"
| "hex_run (Suc n) [] = False"
| "hex_run (Suc n) (c # s) = (hex_class c \<and> hex_run n s)"

definition MESSAGE_ID_REGEXP_match :: "string \<Rightarrow> bool" where
  "MESSAGE_ID_REGEXP_match s \<longleftrightarrow> hex_run 3 s \<or> hex_run 8 s"

text \<open>\<open>I18n.t\<close> belongs to the adapter framework; without a catalogue it gives the text
  back. The component only tests the result against \<open>null\<close>.\<close>

definition I18n_t :: "string \<Rightarrow> string" where
  "I18n_t s = s"

text \<open>The conversion of a number to a string inside a template literal, for the integers
  a data length can be: decimal digits, with a sign when negative.\<close>

fun digits :: "nat \<Rightarrow> string" where
  "digits n =
     (if n < 10 then [char_of (48 + n)] else digits (n div 10) @ [char_of (48 + n mod 10)])"

declare digits.simps [simp del]

definition Number_toString :: "int \<Rightarrow> string" where
  "Number_toString n = (if n < 0 then CHR ''-'' # digits (nat (- n)) else digits (nat n))"

subsection \<open>\<open>setState\<close>\<close>

definition merge_key :: "'a option \<Rightarrow> 'a \<Rightarrow> 'a" where
  "merge_key new old = (case new of Some v \<Rightarrow> v | None \<Rightarrow> old)"

text \<open>\<open>this.setState(partial)\<close> overwrites the keys the partial state has.\<close>

definition setState :: "PartialState \<Rightarrow> MessageState \<Rightarrow> MessageState" where
  "setState p s =
     \<lparr> id_msg = merge_key (id_opt p) (id_msg s),
       name_msg = merge_key (name_opt p) (name_msg s),
       dlc = merge_key (dlc_opt p) (dlc s),
       receive = merge_key (receive_opt p) (receive s),
       send = merge_key (send_opt p) (send s),
       autosend = merge_key (autosend_opt p) (autosend s),
       parsers = merge_key (parsers_opt p) (parsers s),
       tabIndex = merge_key (tabIndex_opt p) (tabIndex s),
       idError = merge_key (idError_opt p) (idError s),
       showRemoveConfirm = merge_key (showRemoveConfirm_opt p) (showRemoveConfirm s),
       parsersValid = merge_key (parsersValid_opt p) (parsersValid s) \<rparr>"

definition no_keys :: PartialState where
  "no_keys =
     \<lparr> id_opt = None, name_opt = None, dlc_opt = None, receive_opt = None, send_opt = None,
       autosend_opt = None, parsers_opt = None, tabIndex_opt = None, idError_opt = None,
       showRemoveConfirm_opt = None, parsersValid_opt = None \<rparr>"

definition all_keys :: "MessageState \<Rightarrow> PartialState" where
  "all_keys s =
     \<lparr> id_opt = Some (id_msg s), name_opt = Some (name_msg s), dlc_opt = Some (dlc s),
       receive_opt = Some (receive s), send_opt = Some (send s),
       autosend_opt = Some (autosend s), parsers_opt = Some (parsers s),
       tabIndex_opt = Some (tabIndex s), idError_opt = Some (idError s),
       showRemoveConfirm_opt = Some (showRemoveConfirm s),
       parsersValid_opt = Some (parsersValid s) \<rparr>"

subsection \<open>\<open>validateState\<close>\<close>

text \<open>The loop \<open>for (const uuid in this.state.parsersValid)\<close>: one step per key, in order;
  \<open>!this.state.parsersValid[uuid]\<close> is also true of a missing entry.\<close>

definition truthy_entry :: "(string \<times> bool) list \<Rightarrow> string \<Rightarrow> bool" where
  "truthy_entry pv k = (case map_of pv k of Some b \<Rightarrow> b | None \<Rightarrow> False)"

fun check_parsers :: "(string \<times> bool) list \<Rightarrow> string list \<Rightarrow> bool \<Rightarrow> bool" where
  "check_parsers pv [] isValid = isValid"
| "check_parsers pv (k # ks) isValid =
     check_parsers pv ks (if \<not> truthy_entry pv k then False else isValid)"

text \<open>\<open>validateState(state)\<close> of a component whose \<open>this.state\<close> is \<open>this_state\<close> (\<open>None\<close>
  inside the constructor, where \<open>this.state\<close> is still undefined). It gives back the
  state it was handed, with \<open>idError\<close> set when it carried an id, and the calls it made
  to \<open>props.onValidate\<close>.\<close>

definition validateState ::
    "MessageProps \<Rightarrow> MessageState option \<Rightarrow> PartialState \<Rightarrow> PartialState \<times> event list" where
  "validateState pr this_state st =
     (let (st1, isValid1) =
            (case id_opt st of
               Some s \<Rightarrow>
                 if MESSAGE_ID_REGEXP_match s then (st\<lparr>idError_opt := Some None\<rparr>, True)
                 else (st\<lparr>idError_opt := Some (Some (I18n_t ''Must be a 3 or 8 char hex ID''))\<rparr>,
                       False)
             | None \<Rightarrow>
                 (case this_state of
                    Some ts \<Rightarrow> if idError ts \<noteq> None then (st, False) else (st, True)
                  | None \<Rightarrow> (st, False)));
          isValid2 =
            (case this_state of
               Some ts \<Rightarrow> check_parsers (parsersValid ts) (map fst (parsersValid ts)) isValid1
             | None \<Rightarrow> isValid1)
      in (st1, if has_onValidate pr then [OnValidate (uuid pr) isValid2] else []))"

subsection \<open>The constructor and \<open>componentDidMount\<close>\<close>

text \<open>\<open>x || ''\<close> on a string that may be missing: the empty string is falsy too.\<close>

definition or_empty :: "string option \<Rightarrow> string" where
  "or_empty x = (case x of Some s \<Rightarrow> if s = [] then [] else s | None \<Rightarrow> [])"

definition or_false :: "bool option \<Rightarrow> bool" where
  "or_false x = (case x of Some b \<Rightarrow> if b then True else False | None \<Rightarrow> False)"

text \<open>\<open>new Message(props)\<close> with \<open>nr\<close> the next free reference: \<open>props.config.parsers || {}\<close>
  creates an object only when the config has none.\<close>

definition Message_new :: "MessageProps \<Rightarrow> ref \<Rightarrow> Message" where
  "Message_new pr nr =
     (let cfg = config pr;
          (ps, nr1) = (case parsers_cfg cfg of Some obj \<Rightarrow> (obj, nr) | None \<Rightarrow> ((nr, []), Suc nr));
          init = \<lparr> id_msg = or_empty (id_cfg cfg),
                   name_msg = or_empty (name_cfg cfg),
                   dlc = (case dlc_cfg cfg of Some d \<Rightarrow> d | None \<Rightarrow> - 1),
                   receive = or_false (receive_cfg cfg),
                   send = or_false (send_cfg cfg),
                   autosend = or_false (autosend_cfg cfg),
                   parsers = ps,
                   tabIndex = 0,
                   idError = None,
                   showRemoveConfirm = False,
                   parsersValid = [] \<rparr>;
          (st, evs) = validateState pr None (all_keys init)
      in \<lparr> props = pr, state = setState st init, calls = evs, next_ref = nr1 \<rparr>)"

definition componentDidMount :: "Message \<Rightarrow> Message" where
  "componentDidMount c =
     c\<lparr>calls := calls c @ snd (validateState (props c) (Some (state c)) no_keys)\<rparr>"

subsection \<open>\<open>render\<close>: the message id handed to the parsers\<close>

definition msgId :: "MessageState \<Rightarrow> string" where
  "msgId s =
     (if dlc s \<ge> 0 then id_msg s @ ''-'' @ Number_toString (dlc s) else id_msg s)"

subsection \<open>\<open>handleChange\<close>\<close>

text \<open>The argument pair \<open>(key, value)\<close> of \<open>handleChange\<close>, one constructor per key of
  \<open>MessageState\<close>.\<close>

datatype field_update =
  Set_id string
| Set_name string
| Set_dlc int
| Set_receive bool
| Set_send bool
| Set_autosend bool
| Set_parsers parsers_obj
| Set_tabIndex int
| Set_idError "string option"
| Set_showRemoveConfirm bool
| Set_parsersValid "(string \<times> bool) list"

text \<open>\<open>{ [key]: value }\<close>\<close>

fun single_key :: "field_update \<Rightarrow> PartialState" where
  "single_key (Set_id v) = no_keys\<lparr>id_opt := Some v\<rparr>"
| "single_key (Set_name v) = no_keys\<lparr>name_opt := Some v\<rparr>"
| "single_key (Set_dlc v) = no_keys\<lparr>dlc_opt := Some v\<rparr>"
| "single_key (Set_receive v) = no_keys\<lparr>receive_opt := Some v\<rparr>"
| "single_key (Set_send v) = no_keys\<lparr>send_opt := Some v\<rparr>"
| "single_key (Set_autosend v) = no_keys\<lparr>autosend_opt := Some v\<rparr>"
| "single_key (Set_parsers v) = no_keys\<lparr>parsers_opt := Some v\<rparr>"
| "single_key (Set_tabIndex v) = no_keys\<lparr>tabIndex_opt := Some v\<rparr>"
| "single_key (Set_idError v) = no_keys\<lparr>idError_opt := Some v\<rparr>"
| "single_key (Set_showRemoveConfirm v) = no_keys\<lparr>showRemoveConfirm_opt := Some v\<rparr>"
| "single_key (Set_parsersValid v) = no_keys\<lparr>parsersValid_opt := Some v\<rparr>"

text \<open>The object literal handed to \<open>props.onChange\<close>: seven keys, \<open>parsers\<close> a copy
  \<open>{ ...this.state.parsers }\<close> at the reference \<open>r\<close>.\<close>

definition changed_config :: "MessageState \<Rightarrow> ref \<Rightarrow> AdapterConfigMessage" where
  "changed_config s r =
     \<lparr> id_msg = id_msg s, name_msg = name_msg s, dlc = dlc s, receive = receive s,
       send = send s, autosend = autosend s, parsers = (r, snd (parsers s)) \<rparr>"

text \<open>\<open>validateState(newState)\<close> runs first, on the state before the change; then
  \<open>setState\<close>, and in its callback the call of \<open>props.onChange\<close>, which reads the new
  \<open>this.state\<close>.\<close>

definition handleChange :: "field_update \<Rightarrow> Message \<Rightarrow> Message" where
  "handleChange kv c =
     (let (newState, evs) = validateState (props c) (Some (state c)) (single_key kv);
          c1 = c\<lparr>calls := calls c @ evs\<rparr>;
          c2 = c1\<lparr>state := setState newState (state c1)\<rparr>
      in if has_onChange (props c2)
         then c2\<lparr>calls := calls c2 @ [OnChange (uuid (props c2)) (changed_config (state c2) (next_ref c2))],
                 next_ref := Suc (next_ref c2)\<rparr>
         else c2)"

subsection \<open>The handlers of the parsers\<close>

definition onParserValidate :: "string \<Rightarrow> bool \<Rightarrow> Message \<Rightarrow> Message" where
  "onParserValidate k valid c =
     (let parsersValid1 = AList.update k valid (parsersValid (state c));
          c1 = c\<lparr>state := setState (no_keys\<lparr>parsersValid_opt := Some parsersValid1\<rparr>) (state c)\<rparr>
      in c1\<lparr>calls := calls c1 @ snd (validateState (props c1) (Some (state c1)) no_keys)\<rparr>)"

definition new_parser :: AdapterConfigMessageParser where
  "new_parser =
     \<lparr> id_parser = '''', name_parser = '''', dataType = ''int8'', dataLength = 1,
       dataOffset = 0, dataUnit = '''', dataEncoding = ''latin1'', booleanMask = 0,
       booleanInvert = False, customScriptRead = '''', customScriptWrite = '''' \<rparr>"

text \<open>\<open>onParserAdd\<close>, with \<open>k\<close> the key \<open>uuidv4()\<close> gave (the generator is not among the
  sources).\<close>

definition onParserAdd :: "string \<Rightarrow> Message \<Rightarrow> Message" where
  "onParserAdd k c =
     (let parsers1 = (next_ref c, AList.update k new_parser (snd (parsers (state c))));
          c1 = handleChange (Set_parsers parsers1) (c\<lparr>next_ref := Suc (next_ref c)\<rparr>);
          c2 = onParserValidate k False c1
      in c2\<lparr>state := setState
               (no_keys\<lparr>tabIndex_opt := Some (int (length (snd (parsers (state c2)))) - 1)\<rparr>)
               (state c2)\<rparr>)"

definition onParserChange :: "string \<Rightarrow> AdapterConfigMessageParser \<Rightarrow> Message \<Rightarrow> Message" where
  "onParserChange k parser c =
     (let parsers1 = (next_ref c, AList.update k parser (snd (parsers (state c))))
      in handleChange (Set_parsers parsers1) (c\<lparr>next_ref := Suc (next_ref c)\<rparr>))"

definition onParserDelete :: "string \<Rightarrow> Message \<Rightarrow> Message" where
  "onParserDelete k c =
     (let parsers1 = (next_ref c, AList.delete k (snd (parsers (state c))));
          c1 = handleChange (Set_parsers parsers1) (c\<lparr>next_ref := Suc (next_ref c)\<rparr>);
          c2 = c1\<lparr>state := setState (no_keys\<lparr>tabIndex_opt := Some (tabIndex (state c1) - 1)\<rparr>)
                               (state c1)\<rparr>
      in if tabIndex (state c2) < 0
         then c2\<lparr>state := setState (no_keys\<lparr>tabIndex_opt := Some 0\<rparr>) (state c2)\<rparr>
         else c2)"

subsection \<open>What the owner observes, and the rule of the specification\<close>

text \<open>The verdicts handed to \<open>props.onValidate\<close> and the configurations handed to
  \<open>props.onChange\<close> in a list of calls, and the calls a method added.\<close>

fun validity_reports :: "event list \<Rightarrow> bool list" where
  "validity_reports [] = []"
| "validity_reports (OnValidate u v # es) = v # validity_reports es"
| "validity_reports (OnChange u cfg # es) = validity_reports es"

fun change_reports :: "event list \<Rightarrow> AdapterConfigMessage list" where
  "change_reports [] = []"
| "change_reports (OnValidate u v # es) = change_reports es"
| "change_reports (OnChange u cfg # es) = cfg # change_reports es"

definition calls_since :: "Message \<Rightarrow> Message \<Rightarrow> event list" where
  "calls_since c c' = drop (length (calls c)) (calls c')"

text \<open>The rule as the specification words it:
  \<open>valid(message) = own_fields_valid(message) AND (AND over all v in childValidity.values(): v)\<close>.\<close>

definition aggregate_validity :: "bool \<Rightarrow> (string \<times> bool) list \<Rightarrow> bool" where
  "aggregate_validity own_fields_valid childValidity \<longleftrightarrow>
     own_fields_valid \<and> (\<forall>v \<in> ran (map_of childValidity). v)"

text \<open>The keys of the state that are persisted, that is, part of the configuration.\<close>

fun persisted :: "field_update \<Rightarrow> bool" where
  "persisted (Set_tabIndex v) = False"
| "persisted (Set_idError v) = False"
| "persisted (Set_showRemoveConfirm v) = False"
| "persisted (Set_parsersValid v) = False"
| "persisted kv = True"

text \<open>The persisted keys other than \<open>id\<close> and \<open>parsers\<close>.\<close>

fun plain_field :: "field_update \<Rightarrow> bool" where
  "plain_field (Set_name v) = True"
| "plain_field (Set_dlc v) = True"
| "plain_field (Set_receive v) = True"
| "plain_field (Set_send v) = True"
| "plain_field (Set_autosend v) = True"
| "plain_field kv = False"

text \<open>References are handed out in order, so the allocated ones are those below
  \<open>next_ref\<close>. Every object the component holds or has handed to \<open>props.onChange\<close> has
  been allocated; \<open>update_allocated\<close> says the same of an object handed to
  \<open>handleChange\<close>.\<close>

definition refs_allocated :: "Message \<Rightarrow> bool" where
  "refs_allocated c \<longleftrightarrow>
     fst (parsers (state c)) < next_ref c \<and>
     list_all (\<lambda>cfg. fst (parsers cfg) < next_ref c) (change_reports (calls c))"

fun update_allocated :: "Message \<Rightarrow> field_update \<Rightarrow> bool" where
  "update_allocated c (Set_parsers obj) = (fst obj < next_ref c)"
| "update_allocated c kv = True"

text \<open>The rule for the id as the specification words it: exactly 3 or exactly 8
  hexadecimal characters, in either case.\<close>

definition three_or_eight_hex :: "string \<Rightarrow> bool" where
  "three_or_eight_hex s \<longleftrightarrow>
     (length s = 3 \<or> length s = 8) \<and> (\<forall>ch \<in> set s. ch \<in> set ''0123456789abcdefABCDEF'')"

text \<open>The outcome of the id check of one validation pass: the check of the id when the
  pass is handed one, the outcome of the last check otherwise.\<close>

definition id_check :: "MessageState \<Rightarrow> PartialState \<Rightarrow> bool" where
  "id_check ts st =
     (case id_opt st of Some s \<Rightarrow> MESSAGE_ID_REGEXP_match s | None \<Rightarrow> idError ts = None)"

text \<open>Between \<open>c\<close> and \<open>c'\<close> the owner was told a verdict, and the last one it was told is
  the validity of the state of \<open>c'\<close>.\<close>

definition reports_current_validity :: "Message \<Rightarrow> Message \<Rightarrow> bool" where
  "reports_current_validity c c' \<longleftrightarrow>
     validity_reports (calls_since c c') \<noteq> [] \<and>
     last (validity_reports (calls_since c c')) =
       aggregate_validity (idError (state c') = None) (parsersValid (state c'))"

subsection \<open>A concrete message\<close>

text \<open>A standard-frame message with a fixed data length and no parsers, mounted with both
  callbacks.\<close>

definition demo_props :: MessageProps where
  "demo_props =
     \<lparr> uuid = ''m1'',
       config = \<lparr> id_cfg = Some ''1AB'', name_cfg = Some ''engine'', dlc_cfg = Some 4,
                  receive_cfg = Some True, send_cfg = None, autosend_cfg = None,
                  parsers_cfg = None \<rparr>,
       has_onChange = True, has_onValidate = True \<rparr>"

definition demo :: Message where
  "demo = componentDidMount (Message_new demo_props 0)"

text \<open>The same message after a parser was added, named and placed at offset 7, and
  reported valid by its editor.\<close>

definition demo_with_parser :: Message where
  "demo_with_parser =
     onParserValidate ''p1'' True
       (onParserChange ''p1'' (new_parser\<lparr>id_parser := ''rpm'', dataOffset := 7\<rparr>)
          (onParserAdd ''p1'' demo))"

text \<open>The first message after a parser was added and, before it was edited, deleted
  again.\<close>

definition demo_emptied :: Message where
  "demo_emptied = onParserDelete ''p1'' (onParserAdd ''p1'' demo)"

section \<open>Lemmas about the methods\<close>

subsection \<open>The validation pass\<close>

lemma check_parsers_eq:
  "check_parsers pv ks b \<longleftrightarrow> b \<and> (\<forall>k \<in> set ks. truthy_entry pv k)"
  by (induction ks arbitrary: b) auto

lemma truthy_keys_ran:
  "(\<forall>k \<in> set (map fst pv). truthy_entry pv k) \<longleftrightarrow> (\<forall>v \<in> ran (map_of pv). v)"
proof
  assume h: "\<forall>k \<in> set (map fst pv). truthy_entry pv k"
  show "\<forall>v \<in> ran (map_of pv). v"
  proof
    fix v assume "v \<in> ran (map_of pv)"
    then obtain k where k: "map_of pv k = Some v" by (auto simp: ran_def)
    then have "k \<in> set (map fst pv)" by (metis map_of_eq_None_iff option.distinct(1) set_map)
    with h have "truthy_entry pv k" by blast
    with k show v by (simp add: truthy_entry_def)
  qed
next
  assume h: "\<forall>v \<in> ran (map_of pv). v"
  show "\<forall>k \<in> set (map fst pv). truthy_entry pv k"
  proof
    fix k assume "k \<in> set (map fst pv)"
    then obtain v where v: "map_of pv k = Some v"
      by (metis map_of_eq_None_iff not_None_eq set_map)
    then have "v \<in> ran (map_of pv)" by (auto simp: ran_def)
    with h v show "truthy_entry pv k" by (auto simp: truthy_entry_def)
  qed
qed

lemma check_parsers_aggregate:
  "check_parsers pv (map fst pv) own = aggregate_validity own pv"
  unfolding aggregate_validity_def check_parsers_eq truthy_keys_ran ..

lemma hex_run_iff: "hex_run n s \<longleftrightarrow> length s = n \<and> (\<forall>c \<in> set s. hex_class c)"
proof (induction n arbitrary: s)
  case 0 show ?case by auto
next
  case (Suc n) show ?case by (cases s) (auto simp: Suc)
qed

lemma validateState_calls:
  "snd (validateState pr (Some ts) st) =
     (if has_onValidate pr
      then [OnValidate (uuid pr)
              (aggregate_validity
                 (case id_opt st of Some s \<Rightarrow> MESSAGE_ID_REGEXP_match s | None \<Rightarrow> idError ts = None)
                 (parsersValid ts))]
      else [])"
  by (auto simp add: validateState_def check_parsers_aggregate split: option.splits)

lemma validateState_state:
  "fst (validateState pr this_state st) =
     (case id_opt st of
        Some s \<Rightarrow> st\<lparr>idError_opt :=
                     Some (if MESSAGE_ID_REGEXP_match s then None
                           else Some (I18n_t ''Must be a 3 or 8 char hex ID''))\<rparr>
      | None \<Rightarrow> st)"
  by (simp add: validateState_def split: option.splits)

subsection \<open>\<open>handleChange\<close> and the handlers of the parsers\<close>

lemma handleChange_props [simp]: "props (handleChange kv c) = props c"
  by (simp add: handleChange_def Let_def split: prod.splits)

lemma handleChange_state:
  "state (handleChange kv c) =
     setState (fst (validateState (props c) (Some (state c)) (single_key kv))) (state c)"
  by (simp add: handleChange_def Let_def split: prod.splits)

lemma handleChange_calls:
  "calls (handleChange kv c) =
     calls c @ snd (validateState (props c) (Some (state c)) (single_key kv)) @
     (if has_onChange (props c)
      then [OnChange (uuid (props c)) (changed_config (state (handleChange kv c)) (next_ref c))]
      else [])"
  by (simp add: handleChange_def Let_def split: prod.splits)

lemma handleChange_next_ref:
  "next_ref (handleChange kv c) = (if has_onChange (props c) then Suc (next_ref c) else next_ref c)"
  by (simp add: handleChange_def Let_def split: prod.splits)

lemma calls_since_append: "calls c' = calls c @ evs \<Longrightarrow> calls_since c c' = evs"
  by (simp add: calls_since_def)

lemma validity_reports_append [simp]:
  "validity_reports (xs @ ys) = validity_reports xs @ validity_reports ys"
  by (induction xs rule: validity_reports.induct) auto

lemma change_reports_append [simp]:
  "change_reports (xs @ ys) = change_reports xs @ change_reports ys"
  by (induction xs rule: change_reports.induct) auto

lemma single_key_id_opt:
  "id_opt (single_key kv) = (case kv of Set_id s \<Rightarrow> Some s | _ \<Rightarrow> None)"
  by (cases kv) (simp_all add: no_keys_def)

lemma handleChange_idError:
  "idError (state (handleChange kv c)) =
     (case kv of
        Set_id s \<Rightarrow> if MESSAGE_ID_REGEXP_match s then None
                    else Some (I18n_t ''Must be a 3 or 8 char hex ID'')
      | Set_idError e \<Rightarrow> e
      | _ \<Rightarrow> idError (state c))"
  by (cases kv)
     (simp_all add: handleChange_state validateState_state setState_def merge_key_def no_keys_def)

lemma handleChange_parsersValid:
  "parsersValid (state (handleChange kv c)) =
     (case kv of Set_parsersValid pv \<Rightarrow> pv | _ \<Rightarrow> parsersValid (state c))"
  by (cases kv)
     (simp_all add: handleChange_state validateState_state setState_def merge_key_def no_keys_def)

lemma handleChange_validity_reports:
  "validity_reports (calls_since c (handleChange kv c)) =
     (if has_onValidate (props c)
      then [aggregate_validity
              (case kv of Set_id s \<Rightarrow> MESSAGE_ID_REGEXP_match s | _ \<Rightarrow> idError (state c) = None)
              (parsersValid (state c))]
      else [])"
  by (cases kv)
     (simp_all add: calls_since_append [OF handleChange_calls] validateState_calls no_keys_def)

lemma handleChange_change_reports:
  "change_reports (calls_since c (handleChange kv c)) =
     (if has_onChange (props c)
      then [changed_config (state (handleChange kv c)) (next_ref c)]
      else [])"
  by (simp add: calls_since_append [OF handleChange_calls] validateState_calls)

lemma id_opt_no_keys [simp]: "id_opt no_keys = None"
  by (simp add: no_keys_def)

lemma setState_parsersValid [simp]:
  "setState (no_keys\<lparr>parsersValid_opt := Some v\<rparr>) s = s\<lparr>parsersValid := v\<rparr>"
  by (simp add: setState_def no_keys_def merge_key_def)

lemma setState_tabIndex [simp]:
  "setState (no_keys\<lparr>tabIndex_opt := Some v\<rparr>) s = s\<lparr>tabIndex := v\<rparr>"
  by (simp add: setState_def no_keys_def merge_key_def)

lemma handleChange_Set_parsers_state:
  "state (handleChange (Set_parsers obj) c) = (state c)\<lparr>parsers := obj\<rparr>"
  by (simp add: handleChange_state validateState_state setState_def no_keys_def merge_key_def)

lemma aggregate_validity_update_False [simp]:
  "aggregate_validity own (AList.update k False pv) = False"
  by (auto simp: aggregate_validity_def update_conv' ran_def)

lemma aggregate_validity_Nil [simp]: "aggregate_validity own [] = own"
  by (simp add: aggregate_validity_def)

lemma onParserValidate_props [simp]: "props (onParserValidate k v c) = props c"
  by (simp add: onParserValidate_def Let_def)

lemma onParserValidate_next_ref [simp]: "next_ref (onParserValidate k v c) = next_ref c"
  by (simp add: onParserValidate_def Let_def)

lemma onParserValidate_state:
  "state (onParserValidate k v c) =
     (state c)\<lparr>parsersValid := AList.update k v (parsersValid (state c))\<rparr>"
  by (simp add: onParserValidate_def Let_def)

lemma onParserValidate_calls:
  "calls (onParserValidate k v c) =
     calls c @
     (if has_onValidate (props c)
      then [OnValidate (uuid (props c))
              (aggregate_validity (idError (state c) = None)
                 (AList.update k v (parsersValid (state c))))]
      else [])"
  by (simp add: onParserValidate_def Let_def validateState_calls)

lemma onParserAdd_props [simp]: "props (onParserAdd k c) = props c"
  by (simp add: onParserAdd_def Let_def)

lemma onParserAdd_state:
  "state (onParserAdd k c) =
     (state c)\<lparr>parsers := (next_ref c, AList.update k new_parser (snd (parsers (state c)))),
               parsersValid := AList.update k False (parsersValid (state c)),
               tabIndex := int (length (AList.update k new_parser (snd (parsers (state c))))) - 1\<rparr>"
  by (simp add: onParserAdd_def Let_def onParserValidate_state handleChange_Set_parsers_state)

lemma onParserAdd_calls:
  "calls (onParserAdd k c) =
     calls c @
     (if has_onValidate (props c)
      then [OnValidate (uuid (props c))
              (aggregate_validity (idError (state c) = None) (parsersValid (state c)))]
      else []) @
     (if has_onChange (props c)
      then [OnChange (uuid (props c))
              (changed_config
                 ((state c)\<lparr>parsers := (next_ref c, AList.update k new_parser (snd (parsers (state c))))\<rparr>)
                 (Suc (next_ref c)))]
      else []) @
     (if has_onValidate (props c) then [OnValidate (uuid (props c)) False] else [])"
  by (simp add: onParserAdd_def Let_def onParserValidate_calls handleChange_calls
        handleChange_Set_parsers_state handleChange_idError handleChange_parsersValid
        validateState_calls)

lemma onParserChange_props [simp]: "props (onParserChange k p c) = props c"
  by (simp add: onParserChange_def Let_def)

lemma onParserChange_state:
  "state (onParserChange k p c) =
     (state c)\<lparr>parsers := (next_ref c, AList.update k p (snd (parsers (state c))))\<rparr>"
  by (simp add: onParserChange_def Let_def handleChange_Set_parsers_state)

lemma onParserChange_calls:
  "calls (onParserChange k p c) =
     calls c @
     (if has_onValidate (props c)
      then [OnValidate (uuid (props c))
              (aggregate_validity (idError (state c) = None) (parsersValid (state c)))]
      else []) @
     (if has_onChange (props c)
      then [OnChange (uuid (props c))
              (changed_config (state (onParserChange k p c)) (Suc (next_ref c)))]
      else [])"
  by (simp add: onParserChange_def Let_def handleChange_calls
        handleChange_Set_parsers_state validateState_calls)

lemma onParserDelete_props [simp]: "props (onParserDelete k c) = props c"
  by (simp add: onParserDelete_def Let_def)

lemma onParserDelete_state:
  "state (onParserDelete k c) =
     (state c)\<lparr>parsers := (next_ref c, AList.delete k (snd (parsers (state c)))),
               tabIndex := (if tabIndex (state c) - 1 < 0 then 0 else tabIndex (state c) - 1)\<rparr>"
  by (simp add: onParserDelete_def Let_def handleChange_Set_parsers_state)

lemma onParserDelete_calls:
  "calls (onParserDelete k c) =
     calls c @
     (if has_onValidate (props c)
      then [OnValidate (uuid (props c))
              (aggregate_validity (idError (state c) = None) (parsersValid (state c)))]
      else []) @
     (if has_onChange (props c)
      then [OnChange (uuid (props c))
              (changed_config
                 ((state c)\<lparr>parsers := (next_ref c, AList.delete k (snd (parsers (state c))))\<rparr>)
                 (Suc (next_ref c)))]
      else [])"
  by (simp add: onParserDelete_def Let_def handleChange_calls
        handleChange_Set_parsers_state validateState_calls)

subsection \<open>The constructor and the concrete message\<close>

lemma aggregate_validity_code [code]:
  "aggregate_validity own pv = (own \<and> list_all (truthy_entry pv) (map fst pv))"
  by (simp add: aggregate_validity_def truthy_keys_ran [symmetric] list_all_iff)

lemma MESSAGE_ID_REGEXP_match_iff: "MESSAGE_ID_REGEXP_match s = three_or_eight_hex s"
  by (auto simp: MESSAGE_ID_REGEXP_match_def three_or_eight_hex_def hex_run_iff hex_class_def)

lemma demo_eq:
  "demo =
     \<lparr> props = demo_props,
       state = \<lparr> id_msg = ''1AB'', name_msg = ''engine'', dlc = 4, receive = True, send = False,
                 autosend = False, parsers = (0, []), tabIndex = 0, idError = None,
                 showRemoveConfirm = False, parsersValid = [] \<rparr>,
       calls = [OnValidate ''m1'' True, OnValidate ''m1'' True],
       next_ref = 1 \<rparr>"
  by code_simp

lemma Message_new_calls:
  "calls (Message_new pr nr) =
     (if has_onValidate pr
      then [OnValidate (uuid pr) (MESSAGE_ID_REGEXP_match (or_empty (id_cfg (config pr))))]
      else [])"
  by (simp add: Message_new_def Let_def validateState_def all_keys_def split: prod.splits option.splits)

lemma Message_new_state:
  "state (Message_new pr nr) =
     \<lparr> id_msg = or_empty (id_cfg (config pr)),
       name_msg = or_empty (name_cfg (config pr)),
       dlc = (case dlc_cfg (config pr) of Some d \<Rightarrow> d | None \<Rightarrow> - 1),
       receive = or_false (receive_cfg (config pr)),
       send = or_false (send_cfg (config pr)),
       autosend = or_false (autosend_cfg (config pr)),
       parsers = (case parsers_cfg (config pr) of Some obj \<Rightarrow> obj | None \<Rightarrow> (nr, [])),
       tabIndex = 0,
       idError = (if MESSAGE_ID_REGEXP_match (or_empty (id_cfg (config pr))) then None
                  else Some (I18n_t ''Must be a 3 or 8 char hex ID'')),
       showRemoveConfirm = False,
       parsersValid = [] \<rparr>"
  by (simp add: Message_new_def Let_def validateState_def all_keys_def setState_def merge_key_def
           split: prod.splits option.splits)

lemma Message_new_props [simp]: "props (Message_new pr nr) = pr"
  by (simp add: Message_new_def Let_def split: prod.splits)

lemma componentDidMount_calls:
  "calls (componentDidMount c) =
     calls c @
     (if has_onValidate (props c)
      then [OnValidate (uuid (props c))
              (aggregate_validity (idError (state c) = None) (parsersValid (state c)))]
      else [])"
  by (simp add: componentDidMount_def validateState_calls)

lemma demo_state:
  "state demo =
     \<lparr> id_msg = ''1AB'', name_msg = ''engine'', dlc = 4, receive = True, send = False,
       autosend = False, parsers = (0, []), tabIndex = 0, idError = None,
       showRemoveConfirm = False, parsersValid = [] \<rparr>"
  by (simp add: demo_eq)

lemma demo_props_simps [simp]:
  "props demo = demo_props" "has_onValidate demo_props" "has_onChange demo_props"
  "uuid demo_props = ''m1''" "next_ref demo = 1"
  by (simp_all add: demo_eq demo_props_def)

lemma handleChange_plain_idError:
  "plain_field kv \<Longrightarrow> idError (state (handleChange kv c)) = idError (state c)"
  by (cases kv) (simp_all add: handleChange_idError)

lemma handleChange_persisted_parsersValid:
  "persisted kv \<Longrightarrow> parsersValid (state (handleChange kv c)) = parsersValid (state c)"
  by (cases kv) (simp_all add: handleChange_parsersValid)

lemma plain_field_persisted: "plain_field kv \<Longrightarrow> persisted kv"
  by (cases kv) simp_all

lemma onParserAdd_next_ref:
  "next_ref (onParserAdd k c) =
     (if has_onChange (props c) then Suc (Suc (next_ref c)) else Suc (next_ref c))"
  by (simp add: onParserAdd_def Let_def handleChange_next_ref)

lemma onParserChange_next_ref:
  "next_ref (onParserChange k p c) =
     (if has_onChange (props c) then Suc (Suc (next_ref c)) else Suc (next_ref c))"
  by (simp add: onParserChange_def Let_def handleChange_next_ref)

lemma onParserDelete_next_ref:
  "next_ref (onParserDelete k c) =
     (if has_onChange (props c) then Suc (Suc (next_ref c)) else Suc (next_ref c))"
  by (simp add: onParserDelete_def Let_def handleChange_next_ref)

lemma demo_with_parser_state:
  "state demo_with_parser =
     \<lparr> id_msg = ''1AB'', name_msg = ''engine'', dlc = 4, receive = True, send = False,
       autosend = False,
       parsers = (3, [(''p1'', new_parser\<lparr>id_parser := ''rpm'', dataOffset := 7\<rparr>)]),
       tabIndex = 0, idError = None, showRemoveConfirm = False,
       parsersValid = [(''p1'', True)] \<rparr>"
  by (simp add: demo_with_parser_def onParserValidate_state onParserChange_state
        onParserAdd_state demo_state onParserAdd_next_ref)

lemma demo_with_parser_props [simp]: "props demo_with_parser = demo_props"
  by (simp add: demo_with_parser_def)

lemma handleChange_persisted_idError_None:
  "persisted kv \<Longrightarrow>
     (idError (state (handleChange kv c)) = None) =
     (case kv of Set_id s \<Rightarrow> MESSAGE_ID_REGEXP_match s | _ \<Rightarrow> idError (state c) = None)"
  by (cases kv) (simp_all add: handleChange_idError)

lemma handleChange_reports_current:
  "has_onValidate (props c) \<Longrightarrow> persisted kv \<Longrightarrow> reports_current_validity c (handleChange kv c)"
  by (simp add: reports_current_validity_def handleChange_validity_reports
        handleChange_persisted_idError_None handleChange_persisted_parsersValid)

lemma onParserValidate_reports_current:
  "has_onValidate (props c) \<Longrightarrow> reports_current_validity c (onParserValidate k v c)"
  by (simp add: reports_current_validity_def calls_since_append [OF onParserValidate_calls]
        onParserValidate_state)

lemma onParserAdd_reports_current:
  "has_onValidate (props c) \<Longrightarrow> reports_current_validity c (onParserAdd k c)"
  by (simp add: reports_current_validity_def calls_since_append [OF onParserAdd_calls]
        onParserAdd_state)

lemma onParserChange_reports_current:
  "has_onValidate (props c) \<Longrightarrow> reports_current_validity c (onParserChange k p c)"
  by (simp add: reports_current_validity_def calls_since_append [OF onParserChange_calls]
        onParserChange_state)

lemma onParserDelete_reports_current:
  "has_onValidate (props c) \<Longrightarrow> reports_current_validity c (onParserDelete k c)"
  by (simp add: reports_current_validity_def calls_since_append [OF onParserDelete_calls]
        onParserDelete_state)

lemma digits_one: "n < 10 \<Longrightarrow> digits n = [char_of (48 + n)]"
  by (simp add: digits.simps)

lemma changed_config_handleChange:
  "changed_config (state (handleChange kv c)) r = changed_config (setState (single_key kv) (state c)) r"
  by (cases kv)
     (simp_all add: handleChange_state validateState_state changed_config_def setState_def
        merge_key_def no_keys_def)

lemma handleChange_parsers:
  "parsers (state (handleChange kv c)) =
     (case kv of Set_parsers obj \<Rightarrow> obj | _ \<Rightarrow> parsers (state c))"
  by (cases kv)
     (simp_all add: handleChange_state validateState_state setState_def merge_key_def no_keys_def)

lemma list_all_less_mono:
  "list_all (\<lambda>x. f x < n) xs \<Longrightarrow> n \<le> m \<Longrightarrow> list_all (\<lambda>x. f x < (m::nat)) xs"
  by (induction xs) auto

lemma changed_config_ref [simp]: "fst (parsers (changed_config s r)) = r"
  by (simp add: changed_config_def)

lemma handleChange_refs_allocated:
  assumes "refs_allocated c" and "update_allocated c kv"
  shows "refs_allocated (handleChange kv c)"
proof -
  have old: "list_all (\<lambda>cfg. fst (parsers cfg) < Suc (next_ref c)) (change_reports (calls c))"
    using assms(1) by (auto simp: refs_allocated_def intro: list_all_less_mono)
  have st: "fst (parsers (state (handleChange kv c))) < next_ref c"
    using assms by (cases kv) (simp_all add: refs_allocated_def handleChange_parsers)
  show ?thesis
    using assms(1) old st
    by (simp add: refs_allocated_def handleChange_calls validateState_calls handleChange_next_ref)
qed

lemma parser_handlers_refs_allocated:
  assumes "refs_allocated c"
  shows "refs_allocated (onParserAdd k c)" and "refs_allocated (onParserChange k p c)"
    and "refs_allocated (onParserDelete k c)" and "refs_allocated (onParserValidate k v c)"
proof -
  have old: "list_all (\<lambda>cfg. fst (parsers cfg) < Suc (next_ref c)) (change_reports (calls c))"
    "list_all (\<lambda>cfg. fst (parsers cfg) < Suc (Suc (next_ref c))) (change_reports (calls c))"
    using assms by (auto simp: refs_allocated_def intro: list_all_less_mono)
  show "refs_allocated (onParserAdd k c)"
    using old by (simp add: refs_allocated_def onParserAdd_state onParserAdd_next_ref onParserAdd_calls)
  show "refs_allocated (onParserChange k p c)"
    using old
    by (simp add: refs_allocated_def onParserChange_state onParserChange_next_ref
          onParserChange_calls)
  show "refs_allocated (onParserDelete k c)"
    using old
    by (simp add: refs_allocated_def onParserDelete_state onParserDelete_next_ref
          onParserDelete_calls)
  show "refs_allocated (onParserValidate k v c)"
    using assms by (simp add: refs_allocated_def onParserValidate_state onParserValidate_calls)
qed

lemma Message_new_next_ref:
  "next_ref (Message_new pr nr) =
     (case parsers_cfg (config pr) of Some obj \<Rightarrow> nr | None \<Rightarrow> Suc nr)"
  by (simp add: Message_new_def Let_def split: option.splits prod.splits)

lemma componentDidMount_simps [simp]:
  "state (componentDidMount c) = state c" "next_ref (componentDidMount c) = next_ref c"
  "props (componentDidMount c) = props c"
  by (simp_all add: componentDidMount_def)

lemma Message_new_refs_allocated:
  "(case parsers_cfg (config pr) of Some obj \<Rightarrow> fst obj < nr | None \<Rightarrow> True) \<Longrightarrow>
     refs_allocated (Message_new pr nr) \<and> refs_allocated (componentDidMount (Message_new pr nr))"
  by (auto simp add: refs_allocated_def Message_new_state Message_new_next_ref
        Message_new_calls componentDidMount_calls split: option.splits)

lemma onParserDelete_parsersValid:
  "parsersValid (state (onParserDelete k c)) = parsersValid (state c)"
  by (simp add: onParserDelete_state)

lemma onParserDelete_parsers:
  "map_of (snd (parsers (state (onParserDelete k c)))) k = None"
  by (simp add: onParserDelete_state delete_conv')

lemma demo_added_state:
  "state (onParserAdd ''p1'' demo) =
     \<lparr> id_msg = ''1AB'', name_msg = ''engine'', dlc = 4, receive = True, send = False,
       autosend = False, parsers = (1, [(''p1'', new_parser)]), tabIndex = 0, idError = None,
       showRemoveConfirm = False, parsersValid = [(''p1'', False)] \<rparr>"
  by (simp add: onParserAdd_state demo_state)

lemma demo_emptied_state:
  "state demo_emptied =
     \<lparr> id_msg = ''1AB'', name_msg = ''engine'', dlc = 4, receive = True, send = False,
       autosend = False, parsers = (3, []), tabIndex = 0, idError = None,
       showRemoveConfirm = False, parsersValid = [(''p1'', False)] \<rparr>"
  by (simp add: demo_emptied_def onParserDelete_state demo_added_state onParserAdd_next_ref)

lemma demo_emptied_props [simp]: "props demo_emptied = demo_props"
  by (simp add: demo_emptied_def)

subsection \<open>The rule a validation pass computes\<close>

text \<open>When the owner gave \<open>props.onValidate\<close>, a validation pass of a mounted component
  tells it the conjunction of the id check (of the id the pass is handed, else the outcome
  of the last check) and of every verdict cached in \<open>parsersValid\<close>; with no cached
  verdict the report is the id check alone. The pass of the constructor tells the same of
  the state it creates, whose cache is empty, so a message created from a configuration
  with a well-formed id is reported valid by the constructor and again on mounting.\<close>

lemma validateState_reports_aggregate:
  assumes "has_onValidate pr"
  shows "snd (validateState pr (Some ts) st) =
           [OnValidate (uuid pr) (aggregate_validity (id_check ts st) (parsersValid ts))]
         \<and> (parsersValid ts = [] \<longrightarrow>
              snd (validateState pr (Some ts) st) = [OnValidate (uuid pr) (id_check ts st)])
         \<and> calls (Message_new pr nr) =
             [OnValidate (uuid pr)
                (aggregate_validity
                   (MESSAGE_ID_REGEXP_match (id_msg (state (Message_new pr nr))))
                   (parsersValid (state (Message_new pr nr))))]
         \<and> (MESSAGE_ID_REGEXP_match (or_empty (id_cfg (config pr))) \<longrightarrow>
              parsersValid (state (Message_new pr nr)) = [] \<and>
              calls (componentDidMount (Message_new pr nr)) =
                [OnValidate (uuid pr) True, OnValidate (uuid pr) True])"
  using assms
  by (simp add: validateState_calls id_check_def componentDidMount_calls Message_new_calls
        Message_new_state)

lemma validateState_reports_aggregate_example:
  "has_onValidate demo_props
   \<and> snd (validateState demo_props (Some (state (onParserValidate ''p1'' False demo)))
            (single_key (Set_id ''00A0123B''))) = [OnValidate ''m1'' False]
   \<and> snd (validateState demo_props (Some (state demo)) (single_key (Set_id ''00A0123B'')))
       = [OnValidate ''m1'' True]
   \<and> calls (componentDidMount (Message_new demo_props 0))
       = [OnValidate ''m1'' True, OnValidate ''m1'' True]"
proof -
  have h: "has_onValidate demo_props" by (simp add: demo_props_def)
  have m: "MESSAGE_ID_REGEXP_match (or_empty (id_cfg (config demo_props)))" by code_simp
  have e: "parsersValid (state demo) = []" by (simp add: demo_eq)
  note t1 = validateState_reports_aggregate [OF h, of "state (onParserValidate ''p1'' False demo)"
              "single_key (Set_id ''00A0123B'')" 0]
  note t2 = validateState_reports_aggregate [OF h, of "state demo"
              "single_key (Set_id ''00A0123B'')" 0]
  have i: "id_check (state demo) (single_key (Set_id ''00A0123B''))" by code_simp
  have u: "uuid demo_props = ''m1''" by (simp add: demo_props_def)
  show ?thesis using h m e t1 t2 i u
    by (simp add: onParserValidate_state aggregate_validity_code truthy_entry_def)
qed

section \<open>The claims\<close>

text \<open>C1. Deleting the parser \<open>k\<close> takes \<open>k\<close> out of \<open>parsers\<close> but leaves the cached
  verdicts as they were. So after the only parser of a message with a well-formed id,
  cached as invalid, is deleted, the message has no parser, the verdict for the deleted
  key is still cached, the deletion tells the owner Invalid, and so does every later
  validation pass.\<close>

theorem onParserDelete_keeps_cached_verdict:
  "idError (state (onParserAdd ''p1'' demo)) = None
   \<and> snd (parsers (state (onParserAdd ''p1'' demo))) = [(''p1'', new_parser)]
   \<and> parsersValid (state (onParserAdd ''p1'' demo)) = [(''p1'', False)]
   \<and> snd (parsers (state (onParserDelete ''p1'' (onParserAdd ''p1'' demo)))) = []
   \<and> parsersValid (state (onParserDelete ''p1'' (onParserAdd ''p1'' demo))) = [(''p1'', False)]
   \<and> idError (state (onParserDelete ''p1'' (onParserAdd ''p1'' demo))) = None
   \<and> validity_reports
        (calls_since (onParserAdd ''p1'' demo) (onParserDelete ''p1'' (onParserAdd ''p1'' demo)))
       = [False]
   \<and> validity_reports
        (calls_since (onParserDelete ''p1'' (onParserAdd ''p1'' demo))
           (componentDidMount (onParserDelete ''p1'' (onParserAdd ''p1'' demo))))
       = [False]"
  by (simp add: demo_added_state onParserDelete_state
        calls_since_append [OF onParserDelete_calls] calls_since_append [OF componentDidMount_calls]
        aggregate_validity_code truthy_entry_def)

text \<open>C2. Setting the id of a message to \<open>s\<close> leaves an error in \<open>idError\<close> exactly when
  \<open>s\<close> is not 3 or 8 hexadecimal characters (in either case), and the verdict told to the
  owner is then the rule of the specification with that outcome as the own-field check, so
  it is Invalid for a malformed id. The empty string is malformed. The validation pass
  itself and the constructor set \<open>idError\<close> by the same rule.\<close>

theorem handleChange_id_malformed_iff:
  "(idError (state (handleChange (Set_id s) c)) \<noteq> None \<longleftrightarrow> \<not> three_or_eight_hex s)
   \<and> (has_onValidate (props c) \<longrightarrow>
        validity_reports (calls_since c (handleChange (Set_id s) c)) =
          [aggregate_validity (three_or_eight_hex s) (parsersValid (state c))])
   \<and> (has_onValidate (props c) \<and> \<not> three_or_eight_hex s \<longrightarrow>
        validity_reports (calls_since c (handleChange (Set_id s) c)) = [False])
   \<and> idError (state (handleChange (Set_id []) c)) \<noteq> None
   \<and> (id_opt st = Some s \<longrightarrow>
        idError_opt (fst (validateState pr this_state st)) =
          Some (if three_or_eight_hex s then None
                else Some (I18n_t ''Must be a 3 or 8 char hex ID'')))
   \<and> (idError (state (Message_new pr nr)) \<noteq> None \<longleftrightarrow>
        \<not> three_or_eight_hex (or_empty (id_cfg (config pr))))"
proof -
  have e: "\<not> three_or_eight_hex []" by (simp add: three_or_eight_hex_def)
  show ?thesis
    by (simp add: handleChange_idError handleChange_validity_reports validateState_state
          Message_new_state MESSAGE_ID_REGEXP_match_iff e aggregate_validity_def)
qed

theorem handleChange_id_malformed_iff_witness:
  "has_onValidate (props demo)
   \<and> \<not> three_or_eight_hex ''1A''
   \<and> idError (state (handleChange (Set_id ''1A'') demo)) = Some ''Must be a 3 or 8 char hex ID''
   \<and> validity_reports (calls_since demo (handleChange (Set_id ''1A'') demo)) = [False]
   \<and> three_or_eight_hex ''00a0123B''
   \<and> idError (state (handleChange (Set_id ''00a0123B'') demo)) = None
   \<and> validity_reports (calls_since demo (handleChange (Set_id ''00a0123B'') demo)) = [True]
   \<and> \<not> three_or_eight_hex ''00A0123''
   \<and> idError (state (handleChange (Set_id ''00A0123'') demo)) \<noteq> None
   \<and> idError (state (handleChange (Set_id ''1AG'') demo)) \<noteq> None"
proof -
  have a: "\<not> three_or_eight_hex ''1A''" "three_or_eight_hex ''00a0123B''"
    "\<not> three_or_eight_hex ''00A0123''" "\<not> three_or_eight_hex ''1AG''"
    by (simp_all add: three_or_eight_hex_def)
  have i: "id_opt (single_key (Set_id ''1A'')) = Some ''1A''" by simp
  note t1 = handleChange_id_malformed_iff [of "''1A''" demo "single_key (Set_id ''1A'')" demo_props None 0]
  note t2 = handleChange_id_malformed_iff [of "''00a0123B''" demo "single_key (Set_id ''1A'')" demo_props None 0]
  note t3 = handleChange_id_malformed_iff [of "''00A0123''" demo "single_key (Set_id ''1A'')" demo_props None 0]
  note t4 = handleChange_id_malformed_iff [of "''1AG''" demo "single_key (Set_id ''1A'')" demo_props None 0]
  have s1: "idError (state (handleChange (Set_id ''1A'') demo)) = Some ''Must be a 3 or 8 char hex ID''"
    using a by (simp add: handleChange_idError MESSAGE_ID_REGEXP_match_iff I18n_t_def)
  show ?thesis using a t1 t2 t3 t4 s1
    by (simp add: demo_state)
qed

text \<open>C3. A validation pass tells the owner the conjunction of the id check and of every
  verdict cached in \<open>parsersValid\<close> (\<open>validateState_reports_aggregate\<close> above), and the
  cache can outlive the parsers: after the only parser of the message, cached as invalid,
  was deleted, the message has no parser and a well-formed id, its cache still holds the
  verdict of the deleted parser, and every validation pass tells the owner Invalid: the
  pass without a new state, the pass that is handed the well-formed id again, and the
  pass of setting that id.\<close>

theorem zero_parsers_valid_id_reported_invalid:
  "snd (parsers (state demo_emptied)) = []
   \<and> id_msg (state demo_emptied) = ''1AB''
   \<and> MESSAGE_ID_REGEXP_match ''1AB''
   \<and> idError (state demo_emptied) = None
   \<and> parsersValid (state demo_emptied) = [(''p1'', False)]
   \<and> snd (validateState (props demo_emptied) (Some (state demo_emptied)) no_keys)
       = [OnValidate ''m1'' False]
   \<and> snd (validateState (props demo_emptied) (Some (state demo_emptied))
            (single_key (Set_id ''1AB'')))
       = [OnValidate ''m1'' False]
   \<and> validity_reports (calls_since demo_emptied (handleChange (Set_id ''1AB'') demo_emptied))
       = [False]
   \<and> validity_reports (calls_since demo_emptied (componentDidMount demo_emptied)) = [False]"
proof -
  have m: "MESSAGE_ID_REGEXP_match ''1AB''"
    by (simp add: MESSAGE_ID_REGEXP_match_iff three_or_eight_hex_def)
  show ?thesis
    using m
    by (simp add: demo_emptied_state validateState_calls handleChange_validity_reports
          calls_since_append [OF componentDidMount_calls]
          aggregate_validity_code truthy_entry_def)
qed

text \<open>C4. Adding a parser under the key \<open>k\<close> records the verdict Invalid for \<open>k\<close>, the
  very cache a report of Invalid for \<open>k\<close> leaves; the parser stored under \<open>k\<close> is the
  default one, whose id is empty; the message is invalid afterwards, and when the owner
  gave \<open>props.onValidate\<close> the last verdict it is told is Invalid.\<close>

theorem onParserAdd_reports_invalid:
  "map_of (parsersValid (state (onParserAdd k c))) k = Some False
   \<and> parsersValid (state (onParserAdd k c)) = parsersValid (state (onParserValidate k False c))
   \<and> map_of (snd (parsers (state (onParserAdd k c)))) k = Some new_parser
   \<and> id_parser new_parser = []
   \<and> \<not> aggregate_validity (idError (state (onParserAdd k c)) = None)
          (parsersValid (state (onParserAdd k c)))
   \<and> (has_onValidate (props c) \<longrightarrow>
        validity_reports (calls_since c (onParserAdd k c)) =
          [aggregate_validity (idError (state c) = None) (parsersValid (state c)), False])"
  by (simp add: onParserAdd_state onParserValidate_state update_conv'
        calls_since_append [OF onParserAdd_calls] new_parser_def)

theorem onParserAdd_reports_invalid_witness:
  "has_onValidate (props demo)
   \<and> parsersValid (state (onParserAdd ''p1'' demo)) = [(''p1'', False)]
   \<and> snd (parsers (state (onParserAdd ''p1'' demo))) = [(''p1'', new_parser)]
   \<and> validity_reports (calls_since demo (onParserAdd ''p1'' demo)) = [True, False]"
proof -
  have h: "has_onValidate (props demo)" by simp
  show ?thesis
    using h onParserAdd_reports_invalid [of "''p1''" demo]
    by (simp add: onParserAdd_state demo_state)
qed

text \<open>C5. The message id handed to the parsers is the id, a dash and the data length in
  decimal when the data length is not negative (one digit for 0 to 8), and the id alone
  when the data length is -1.\<close>

theorem msgId_id_with_dlc:
  "(0 \<le> dlc s \<longrightarrow> msgId s = id_msg s @ ''-'' @ Number_toString (dlc s))
   \<and> (dlc s = - 1 \<longrightarrow> msgId s = id_msg s)
   \<and> (0 \<le> dlc s \<and> dlc s \<le> 8 \<longrightarrow> msgId s = id_msg s @ [CHR ''-'', char_of (48 + nat (dlc s))])"
  by (auto simp add: msgId_def Number_toString_def digits_one)

theorem msgId_id_with_dlc_witness:
  "msgId (state demo) = ''1AB-4'' \<and> msgId ((state demo)\<lparr>dlc := - 1\<rparr>) = ''1AB''
   \<and> msgId ((state demo)\<lparr>dlc := 0\<rparr>) = ''1AB-0''"
proof -
  have n: "Number_toString 4 = ''4''" "Number_toString 0 = ''0''" by code_simp+
  show ?thesis
    using n msgId_id_with_dlc [of "state demo"]
      msgId_id_with_dlc [of "(state demo)\<lparr>dlc := - 1\<rparr>"]
      msgId_id_with_dlc [of "(state demo)\<lparr>dlc := 0\<rparr>"]
    by (simp add: demo_state)
qed

text \<open>C6. When the owner gave \<open>props.onChange\<close>, setting a persisted key calls it once,
  with the configuration that has the new value, and so do adding, changing and deleting
  a parser, with the new parsers. Recording the verdict of a parser calls it not at all
  and leaves every persisted key as it was.\<close>

theorem onChange_fired_for_persisted_fields_only:
  "(has_onChange (props c) \<and> persisted kv \<longrightarrow>
      change_reports (calls_since c (handleChange kv c)) =
        [changed_config (setState (single_key kv) (state c)) (next_ref c)])
   \<and> (has_onChange (props c) \<longrightarrow>
        change_reports (calls_since c (onParserAdd k c)) =
          [changed_config
             ((state c)\<lparr>parsers := (next_ref c, AList.update k new_parser (snd (parsers (state c))))\<rparr>)
             (Suc (next_ref c))]
        \<and> change_reports (calls_since c (onParserChange k p c)) =
          [changed_config
             ((state c)\<lparr>parsers := (next_ref c, AList.update k p (snd (parsers (state c))))\<rparr>)
             (Suc (next_ref c))]
        \<and> change_reports (calls_since c (onParserDelete k c)) =
          [changed_config
             ((state c)\<lparr>parsers := (next_ref c, AList.delete k (snd (parsers (state c))))\<rparr>)
             (Suc (next_ref c))])
   \<and> change_reports (calls_since c (onParserValidate k v c)) = []
   \<and> AdapterConfigMessage.truncate (state (onParserValidate k v c)) =
       AdapterConfigMessage.truncate (state c)"
  by (simp add: handleChange_change_reports changed_config_handleChange
        calls_since_append [OF onParserAdd_calls] calls_since_append [OF onParserChange_calls]
        calls_since_append [OF onParserDelete_calls] calls_since_append [OF onParserValidate_calls]
        onParserChange_state onParserValidate_state AdapterConfigMessage.truncate_def)

theorem onChange_fired_for_persisted_fields_only_witness:
  "has_onChange (props demo) \<and> persisted (Set_name ''brake'')
   \<and> change_reports (calls_since demo (handleChange (Set_name ''brake'') demo)) =
       [\<lparr> id_msg = ''1AB'', name_msg = ''brake'', dlc = 4, receive = True, send = False,
          autosend = False, parsers = (1, []) \<rparr>]
   \<and> change_reports (calls_since demo (onParserAdd ''p1'' demo)) =
       [\<lparr> id_msg = ''1AB'', name_msg = ''engine'', dlc = 4, receive = True, send = False,
          autosend = False, parsers = (2, [(''p1'', new_parser)]) \<rparr>]
   \<and> change_reports (calls_since demo (onParserValidate ''p1'' False demo)) = []"
proof -
  have h: "has_onChange (props demo)" by simp
  have p: "persisted (Set_name ''brake'')" by simp
  show ?thesis
    using h p onChange_fired_for_persisted_fields_only [of demo "Set_name ''brake''" "''p1''" new_parser False]
    by (simp add: demo_state changed_config_def setState_def merge_key_def no_keys_def)
qed

text \<open>C7. Setting \<open>name\<close>, \<open>dlc\<close> (to any value), \<open>receive\<close>, \<open>send\<close> or \<open>autosend\<close> tells the
  owner the verdict made of the outcome of the last id check and of the cached verdicts
  of the parsers, and changes neither of them: nothing about the new value, and nothing
  about the parsers' offsets, enters the verdict.\<close>

theorem handleChange_plain_field_validity:
  assumes "plain_field kv"
  shows "validity_reports (calls_since c (handleChange kv c)) =
           (if has_onValidate (props c)
            then [aggregate_validity (idError (state c) = None) (parsersValid (state c))]
            else [])
         \<and> idError (state (handleChange kv c)) = idError (state c)
         \<and> parsersValid (state (handleChange kv c)) = parsersValid (state c)"
  using assms
  by (cases kv)
     (simp_all add: handleChange_validity_reports handleChange_idError handleChange_parsersValid)

theorem handleChange_plain_field_validity_witness:
  "plain_field (Set_dlc 0)
   \<and> validity_reports (calls_since demo_with_parser (handleChange (Set_dlc 0) demo_with_parser))
       = [True]
   \<and> dlc (state (handleChange (Set_dlc 0) demo_with_parser)) = 0
   \<and> idError (state (handleChange (Set_dlc 0) demo_with_parser)) = None
   \<and> parsersValid (state (handleChange (Set_dlc 0) demo_with_parser)) = [(''p1'', True)]"
proof -
  have p: "plain_field (Set_dlc 0)" by simp
  have d: "dlc (state (handleChange (Set_dlc 0) demo_with_parser)) = 0"
    by (simp add: handleChange_state validateState_state setState_def merge_key_def no_keys_def)
  show ?thesis
    using p d handleChange_plain_field_validity [OF p, of demo_with_parser]
    by (simp add: demo_with_parser_state aggregate_validity_code truthy_entry_def)
qed

text \<open>C8. When the owner gave \<open>props.onValidate\<close>, each mutation (setting a persisted
  key, adding a parser, recording a parser's verdict, changing a parser, deleting a
  parser) tells the owner at least one verdict before it is done, and the last verdict it
  tells is the validity of the state it leaves.\<close>

theorem mutations_report_validity:
  assumes "has_onValidate (props c)"
  shows "(persisted kv \<longrightarrow> reports_current_validity c (handleChange kv c))
         \<and> reports_current_validity c (onParserAdd k c)
         \<and> reports_current_validity c (onParserValidate k v c)
         \<and> reports_current_validity c (onParserChange k p c)
         \<and> reports_current_validity c (onParserDelete k c)"
  using assms
  by (simp add: handleChange_reports_current onParserValidate_reports_current
        onParserAdd_reports_current onParserChange_reports_current
        onParserDelete_reports_current)

theorem mutations_report_validity_witness:
  "has_onValidate (props demo) \<and> persisted (Set_id ''1A'')
   \<and> validity_reports (calls_since demo (handleChange (Set_id ''1A'') demo)) = [False]
   \<and> validity_reports (calls_since demo (onParserAdd ''p1'' demo)) = [True, False]
   \<and> validity_reports (calls_since demo (onParserValidate ''p1'' True demo)) = [True]
   \<and> validity_reports (calls_since demo (onParserChange ''p1'' new_parser demo)) = [True]
   \<and> validity_reports (calls_since demo (onParserDelete ''p1'' demo)) = [True]
   \<and> reports_current_validity demo (handleChange (Set_id ''1A'') demo)
   \<and> reports_current_validity demo (onParserAdd ''p1'' demo)
   \<and> reports_current_validity demo (onParserValidate ''p1'' True demo)
   \<and> reports_current_validity demo (onParserChange ''p1'' new_parser demo)
   \<and> reports_current_validity demo (onParserDelete ''p1'' demo)"
proof -
  have h: "has_onValidate (props demo)" by simp
  have p: "persisted (Set_id ''1A'')" by simp
  have m: "\<not> MESSAGE_ID_REGEXP_match ''1A''"
    by (simp add: MESSAGE_ID_REGEXP_match_iff three_or_eight_hex_def)
  show ?thesis
    using h p m mutations_report_validity [OF h, of "Set_id ''1A''" "''p1''" True new_parser]
    by (simp add: handleChange_validity_reports calls_since_append [OF onParserAdd_calls]
          calls_since_append [OF onParserValidate_calls]
          calls_since_append [OF onParserChange_calls]
          calls_since_append [OF onParserDelete_calls] demo_state
          aggregate_validity_code truthy_entry_def)
qed

text \<open>C10. The configuration handed to \<open>props.onChange\<close> is the record of the seven
  persisted keys of the state after the change. Its \<open>parsers\<close> object has the contents of
  the state's and a reference that was not allocated before, while the state's own object
  was: it is a new object. The configuration does not depend on the tab index, the id
  error, the confirm flag or the cached verdicts the component had. The same holds of the
  calls made when a parser is added, changed or deleted.\<close>

theorem onChange_config_persisted_fields_fresh_parsers:
  assumes "has_onChange (props c)" and "refs_allocated c" and "update_allocated c kv"
  shows "change_reports (calls_since c (handleChange kv c)) =
           [\<lparr> id_msg = id_msg (state (handleChange kv c)),
              name_msg = name_msg (state (handleChange kv c)),
              dlc = dlc (state (handleChange kv c)),
              receive = receive (state (handleChange kv c)),
              send = send (state (handleChange kv c)),
              autosend = autosend (state (handleChange kv c)),
              parsers = (next_ref c, snd (parsers (state (handleChange kv c)))) \<rparr>]
         \<and> fst (parsers (state (handleChange kv c))) < next_ref c
         \<and> list_all (\<lambda>cfg. fst (parsers cfg) < next_ref c) (change_reports (calls c))
         \<and> change_reports
              (calls_since
                 (c\<lparr>state := (state c)\<lparr>tabIndex := t, idError := e, showRemoveConfirm := b,
                                        parsersValid := pv\<rparr>\<rparr>)
                 (handleChange kv
                    (c\<lparr>state := (state c)\<lparr>tabIndex := t, idError := e, showRemoveConfirm := b,
                                           parsersValid := pv\<rparr>\<rparr>)))
            = change_reports (calls_since c (handleChange kv c))
         \<and> change_reports (calls_since c (onParserAdd k c)) =
             [changed_config (state (onParserAdd k c)) (Suc (next_ref c))]
         \<and> fst (parsers (state (onParserAdd k c))) < Suc (next_ref c)
         \<and> change_reports (calls_since c (onParserChange k p c)) =
             [changed_config (state (onParserChange k p c)) (Suc (next_ref c))]
         \<and> fst (parsers (state (onParserChange k p c))) < Suc (next_ref c)
         \<and> change_reports (calls_since c (onParserDelete k c)) =
             [changed_config (state (onParserDelete k c)) (Suc (next_ref c))]
         \<and> fst (parsers (state (onParserDelete k c))) < Suc (next_ref c)"
proof -
  have a: "fst (parsers (state (handleChange kv c))) < next_ref c"
    using assms by (cases kv) (simp_all add: refs_allocated_def handleChange_parsers)
  have a': "list_all (\<lambda>cfg. fst (parsers cfg) < next_ref c) (change_reports (calls c))"
    using assms(2) by (simp add: refs_allocated_def)
  have b: "changed_config
             (setState (single_key kv)
                ((state c)\<lparr>tabIndex := t, idError := e, showRemoveConfirm := b, parsersValid := pv\<rparr>)) r
           = changed_config (setState (single_key kv) (state c)) r" for r
    by (simp add: changed_config_def setState_def)
  let ?c1 = "c\<lparr>state := (state c)\<lparr>tabIndex := t, idError := e, showRemoveConfirm := b,
                                      parsersValid := pv\<rparr>\<rparr>"
  have d: "change_reports (calls_since ?c1 (handleChange kv ?c1))
           = change_reports (calls_since c (handleChange kv c))"
    by (simp add: handleChange_change_reports changed_config_handleChange b)
  have h: "change_reports (calls_since c (handleChange kv c)) =
             [changed_config (state (handleChange kv c)) (next_ref c)]"
    using assms(1) by (simp add: handleChange_change_reports)
  have o: "change_reports (calls_since c (onParserAdd k c)) =
             [changed_config (state (onParserAdd k c)) (Suc (next_ref c))]"
    "change_reports (calls_since c (onParserChange k p c)) =
             [changed_config (state (onParserChange k p c)) (Suc (next_ref c))]"
    "change_reports (calls_since c (onParserDelete k c)) =
             [changed_config (state (onParserDelete k c)) (Suc (next_ref c))]"
    using assms(1)
    by (simp_all add: calls_since_append [OF onParserAdd_calls]
          calls_since_append [OF onParserChange_calls]
          calls_since_append [OF onParserDelete_calls]
          onParserAdd_state onParserChange_state onParserDelete_state changed_config_def)
  have r: "fst (parsers (state (onParserAdd k c))) < Suc (next_ref c)"
    "fst (parsers (state (onParserChange k p c))) < Suc (next_ref c)"
    "fst (parsers (state (onParserDelete k c))) < Suc (next_ref c)"
    by (simp_all add: onParserAdd_state onParserChange_state onParserDelete_state)
  from h have h': "change_reports (calls_since c (handleChange kv c)) =
           [\<lparr> id_msg = id_msg (state (handleChange kv c)),
              name_msg = name_msg (state (handleChange kv c)),
              dlc = dlc (state (handleChange kv c)),
              receive = receive (state (handleChange kv c)),
              send = send (state (handleChange kv c)),
              autosend = autosend (state (handleChange kv c)),
              parsers = (next_ref c, snd (parsers (state (handleChange kv c)))) \<rparr>]"
    by (simp add: changed_config_def)
  show ?thesis
    using a a' d h' o r by blast
qed

theorem onChange_config_persisted_fields_fresh_parsers_witness:
  "has_onChange (props demo_with_parser) \<and> refs_allocated demo_with_parser
   \<and> update_allocated demo_with_parser (Set_id ''00A0123B'')
   \<and> change_reports (calls_since demo_with_parser (handleChange (Set_id ''00A0123B'') demo_with_parser))
       = [\<lparr> id_msg = ''00A0123B'', name_msg = ''engine'', dlc = 4, receive = True, send = False,
            autosend = False,
            parsers = (5, [(''p1'', new_parser\<lparr>id_parser := ''rpm'', dataOffset := 7\<rparr>)]) \<rparr>]
   \<and> parsers (state (handleChange (Set_id ''00A0123B'') demo_with_parser))
       = (3, [(''p1'', new_parser\<lparr>id_parser := ''rpm'', dataOffset := 7\<rparr>)])
   \<and> map (fst \<circ> parsers) (change_reports (calls demo_with_parser)) = [2, 4]"
proof -
  have h: "has_onChange (props demo_with_parser)" by simp
  have d: "refs_allocated demo" by (simp add: refs_allocated_def demo_eq)
  have r: "refs_allocated demo_with_parser"
    unfolding demo_with_parser_def
    by (intro parser_handlers_refs_allocated d)
  have u: "update_allocated demo_with_parser (Set_id ''00A0123B'')" by simp
  have n: "next_ref demo_with_parser = 5"
    by (simp add: demo_with_parser_def onParserChange_next_ref onParserAdd_next_ref)
  have s: "state (handleChange (Set_id ''00A0123B'') demo_with_parser) =
             (state demo_with_parser)\<lparr>id_msg := ''00A0123B''\<rparr>"
    by (simp add: handleChange_state validateState_state setState_def merge_key_def no_keys_def
          MESSAGE_ID_REGEXP_match_iff three_or_eight_hex_def demo_with_parser_state)
  have c: "map (fst \<circ> parsers) (change_reports (calls demo_with_parser)) = [2, 4]"
    by (simp add: demo_with_parser_def onParserValidate_calls onParserChange_calls
          onParserAdd_calls onParserAdd_next_ref demo_eq)
  show ?thesis
    using h r u c onChange_config_persisted_fields_fresh_parsers [OF h r u]
    by (simp add: n s demo_with_parser_state)
qed

end
